theory Spec2Isabelle
  imports Main
begin

section \<open>JavaScript values, as far as the hook inspects them\<close>

text \<open>
  The hook looks at a value only through \<open>typeof\<close>, through the destructuring
  \<open>const { value, cleanup } = returnValue\<close> and by calling it. Functions, arrays and
  objects carry their identity (a number), since the host compares dependencies by identity.
\<close>

datatype jsval =
    Undefined
  | Null
  | Str string
  | Function nat
  | Array nat "jsval list"
  | Object nat "(string \<times> jsval) list"

datatype jstype = T_undefined | T_object | T_string | T_function

fun typeof :: "jsval \<Rightarrow> jstype" where
  "typeof Undefined = T_undefined"
| "typeof Null = T_object"
| "typeof (Str s) = T_string"
| "typeof (Function f) = T_function"
| "typeof (Array r xs) = T_object"
| "typeof (Object r fs) = T_object"

text \<open>\<open>Object.is\<close> on these values: primitives by value, the rest by identity.\<close>

fun Object_is :: "jsval \<Rightarrow> jsval \<Rightarrow> bool" where
  "Object_is Undefined Undefined = True"
| "Object_is Null Null = True"
| "Object_is (Str s) (Str t) = (s = t)"
| "Object_is (Function f) (Function g) = (f = g)"
| "Object_is (Array r xs) (Array r' ys) = (r = r')"
| "Object_is (Object r fs) (Object r' gs) = (r = r')"
| "Object_is _ _ = False"

text \<open>A completed evaluation: a value, or a thrown exception.\<close>

datatype 'a completion = Normal 'a | Throw jsval

definition TypeError :: jsval where
  "TypeError = Str ''TypeError''"

text \<open>Reading a property of an object-typed value; an absent property reads \<open>undefined\<close>.\<close>

fun get_property :: "jsval \<Rightarrow> string \<Rightarrow> jsval" where
  "get_property (Object r fs) k = (case map_of fs k of Some v \<Rightarrow> v | None \<Rightarrow> Undefined)"
| "get_property _ k = Undefined"

text \<open>
  \<open>const { value, cleanup } = returnValue\<close>: destructuring \<open>null\<close> (or \<open>undefined\<close>)
  throws a TypeError.
\<close>

fun destructure :: "jsval \<Rightarrow> (jsval \<times> jsval) completion" where
  "destructure Undefined = Throw TypeError"
| "destructure Null = Throw TypeError"
| "destructure v = Normal (get_property v ''value'', get_property v ''cleanup'')"

section \<open>The environment: user functions, the host's comparison, the observable trace\<close>

text \<open>
  A user function (the callback given to the hook, a cleanup it returns) is known by its
  identity; \<open>body\<close> gives what a call of it does to the user's own state and how it completes.
  User functions do not call back into the hook (the hook is not reentrant).
  \<open>depsEqual\<close> is the comparison of dependency lists that the host's \<open>useCallback\<close> and
  \<open>useEffect\<close> apply.
\<close>

record 'u env =
  body :: "nat \<Rightarrow> jsval list \<Rightarrow> 'u \<Rightarrow> jsval completion \<times> 'u"
  depsEqual :: "jsval list \<Rightarrow> jsval list \<Rightarrow> bool"

text \<open>
  Modelled from the spec: the comparison of the external memoization primitive (React's,
  which is not part of this repository): two dependency lists are equal iff they have the
  same length and are pairwise equal under \<open>Object.is\<close>.
\<close>

definition areHookInputsEqual :: "jsval list \<Rightarrow> jsval list \<Rightarrow> bool" where
  "areHookInputsEqual nextDeps prevDeps = list_all2 Object_is nextDeps prevDeps"

text \<open>
  What an observer sees: each call of a cleanup (with the address of the slot object it was
  taken from) and each call of the user's callback (with its arguments and completion).
\<close>

datatype event =
    Called_cleanup nat nat
  | Called_callback nat "jsval list" "jsval completion"

record 'u world =
  trace :: "event list"
  user :: 'u

definition call_function :: "'u env \<Rightarrow> jsval \<Rightarrow> jsval list \<Rightarrow> 'u \<Rightarrow> jsval completion \<times> 'u" where
  "call_function E f args u =
     (case f of Function n \<Rightarrow> body E n args u | _ \<Rightarrow> (Throw TypeError, u))"

section \<open>The hook's own state\<close>

text \<open>
  \<open>cleanupRef.current\<close> is an object \<open>{ cleanup, isCalled }\<close>; every assignment to
  \<open>cleanupRef.current\<close> allocates a new object, whose address is \<open>addr\<close>.
\<close>

record cleanupObj =
  cleanup :: jsval
  isCalled :: bool
  addr :: nat

text \<open>The \<open>Options\<close> argument (every field optional) and the options with defaults applied.\<close>

record Options =
  optCleanUpOnCall :: "bool option"
  optCleanUpOnDepsChange :: "bool option"
  optCleanUpOnUnmount :: "bool option"

record options =
  cleanUpOnCall :: bool
  cleanUpOnDepsChange :: bool
  cleanUpOnUnmount :: bool

definition no_options :: Options where
  "no_options = \<lparr>optCleanUpOnCall = None, optCleanUpOnDepsChange = None, optCleanUpOnUnmount = None\<rparr>"

text \<open>
  \<open>{ cleanUpOnCall = true, cleanUpOnDepsChange = false, cleanUpOnUnmount = true }: Options = {}\<close>
\<close>

definition resolve_options :: "Options \<Rightarrow> options" where
  "resolve_options opts =
     \<lparr>cleanUpOnCall = (case optCleanUpOnCall opts of None \<Rightarrow> True | Some b \<Rightarrow> b),
      cleanUpOnDepsChange = (case optCleanUpOnDepsChange opts of None \<Rightarrow> False | Some b \<Rightarrow> b),
      cleanUpOnUnmount = (case optCleanUpOnUnmount opts of None \<Rightarrow> True | Some b \<Rightarrow> b)\<rparr>"

text \<open>The dependency array the caller passes: its identity and its items.\<close>

record depsArray =
  ref :: nat
  items :: "jsval list"

definition deps_value :: "depsArray \<Rightarrow> jsval" where
  "deps_value d = Array (ref d) (items d)"

text \<open>The arguments of one call of \<open>useCleanupCallback(callback, deps, options)\<close>.\<close>

record props =
  callback :: nat
  deps :: depsArray
  options :: Options

text \<open>
  The function \<open>(...args) => { ... }\<close> that a render creates: its identity and the
  \<open>callback\<close> it closes over.
\<close>

record closure =
  ident :: nat
  captured :: nat

text \<open>
  What the host keeps for one mounted instance of the hook: the two refs, the dependencies
  of the effect registered with \<open>[deps]\<close>, the function and dependencies memoized by
  \<open>useCallback\<close>, and the next free object address and closure identity.
\<close>

record hook =
  cleanupRef :: cleanupObj
  optionsRef :: options
  effectDeps :: "jsval list"
  memoCallback :: closure
  memoDeps :: "jsval list"
  allocated :: nat
  closures :: nat

type_synonym 'u state = "hook \<times> 'u world"

section \<open>The hook\<close>

text \<open>
  \<open>handleCleanupObj\<close>: if the cleanup has not been called and is a function, mark it as
  called, then call it. The mark is written before the call, so it stays when the call throws.
\<close>

definition handleCleanupObj ::
  "'u env \<Rightarrow> cleanupObj \<Rightarrow> 'u world \<Rightarrow> unit completion \<times> cleanupObj \<times> 'u world" where
  "handleCleanupObj E cleanupObj w =
     (if \<not> isCalled cleanupObj \<and> typeof (cleanup cleanupObj) = T_function then
        (let obj' = cleanupObj\<lparr>isCalled := True\<rparr>;
             (r, u') = call_function E (cleanup cleanupObj) [] (user w);
             w' = w\<lparr>trace := trace w @
                     (case cleanup cleanupObj of Function f \<Rightarrow> [Called_cleanup (addr cleanupObj) f]
                      | _ \<Rightarrow> []),
                    user := u'\<rparr>
         in (case r of Normal v \<Rightarrow> (Normal (), obj', w') | Throw e \<Rightarrow> (Throw e, obj', w')))
      else (Normal (), cleanupObj, w))"

text \<open>\<open>handleCleanupObj(cleanupRef.current)\<close>: the object is passed by reference.\<close>

definition handleCleanupRef :: "'u env \<Rightarrow> 'u state \<Rightarrow> unit completion \<times> 'u state" where
  "handleCleanupRef E s =
     (case s of (h, w) \<Rightarrow>
        (case handleCleanupObj E (cleanupRef h) w of
           (r, obj', w') \<Rightarrow> (r, h\<lparr>cleanupRef := obj'\<rparr>, w')))"

text \<open>\<open>cleanupRef.current = { cleanup, isCalled: false }\<close>\<close>

definition set_cleanupRef :: "jsval \<Rightarrow> hook \<Rightarrow> hook" where
  "set_cleanupRef c h =
     h\<lparr>cleanupRef := \<lparr>cleanup = c, isCalled = False, addr = allocated h\<rparr>,
       allocated := Suc (allocated h)\<rparr>"

text \<open>
  The first statement of \<open>outputCallback\<close>:
  \<open>if (optionsRef.current.cleanUpOnCall) handleCleanupObj(cleanupRef.current)\<close>.
\<close>

definition cleanUpPreviousCall :: "'u env \<Rightarrow> 'u state \<Rightarrow> unit completion \<times> 'u state" where
  "cleanUpPreviousCall E s =
     (if cleanUpOnCall (optionsRef (fst s)) then handleCleanupRef E s else (Normal (), s))"

text \<open>
  The rest of \<open>outputCallback\<close>, for the closure that captured \<open>callback\<close>: call the
  callback; an object result is destructured, its cleanup stored and its value returned;
  a function result is stored and returned; any other result is returned and the slot is
  not written.
\<close>

definition callAndStore :: "'u env \<Rightarrow> nat \<Rightarrow> jsval list \<Rightarrow> 'u state \<Rightarrow> jsval completion \<times> 'u state" where
  "callAndStore E cb args s =
     (case s of (h, w) \<Rightarrow>
        (case call_function E (Function cb) args (user w) of
           (r, u') \<Rightarrow>
             (let w' = w\<lparr>trace := trace w @ [Called_callback cb args r], user := u'\<rparr> in
                (case r of
                   Throw e \<Rightarrow> (Throw e, h, w')
                 | Normal returnValue \<Rightarrow>
                     if typeof returnValue = T_object then
                       (case destructure returnValue of
                          Throw e \<Rightarrow> (Throw e, h, w')
                        | Normal (val, cln) \<Rightarrow> (Normal val, set_cleanupRef cln h, w'))
                     else if typeof returnValue = T_function then
                       (Normal returnValue, set_cleanupRef returnValue h, w')
                     else (Normal returnValue, h, w')))))"

definition outputCallback :: "'u env \<Rightarrow> nat \<Rightarrow> jsval list \<Rightarrow> 'u state \<Rightarrow> jsval completion \<times> 'u state" where
  "outputCallback E cb args s =
     (case cleanUpPreviousCall E s of
        (Throw e, s1) \<Rightarrow> (Throw e, s1)
      | (Normal _, s1) \<Rightarrow> callAndStore E cb args s1)"

text \<open>The cleanup of the effect registered with \<open>[deps]\<close>, and of the one registered with \<open>[]\<close>.\<close>

definition depsEffectCleanup :: "'u env \<Rightarrow> 'u state \<Rightarrow> unit completion \<times> 'u state" where
  "depsEffectCleanup E s =
     (if cleanUpOnDepsChange (optionsRef (fst s)) then handleCleanupRef E s else (Normal (), s))"

definition unmountEffectCleanup :: "'u env \<Rightarrow> 'u state \<Rightarrow> unit completion \<times> 'u state" where
  "unmountEffectCleanup E s =
     (if cleanUpOnUnmount (optionsRef (fst s)) then handleCleanupRef E s else (Normal (), s))"

section \<open>The host: mounting, re-rendering, invoking, unmounting\<close>

text \<open>
  The first render: both refs are initialised, the callback is memoized with the items of
  \<open>deps\<close>, the second effect with the one-element list \<open>[deps]\<close>.
\<close>

definition mount :: "props \<Rightarrow> 'u \<Rightarrow> 'u state" where
  "mount p u =
     (\<lparr>cleanupRef = \<lparr>cleanup = Null, isCalled = False, addr = 0\<rparr>,
       optionsRef = resolve_options (options p),
       effectDeps = [deps_value (deps p)],
       memoCallback = \<lparr>ident = 0, captured = callback p\<rparr>,
       memoDeps = items (deps p),
       allocated = 1,
       closures = 1\<rparr>,
      \<lparr>trace = [], user = u\<rparr>)"

text \<open>
  A later render. \<open>useCallback(fn, deps)\<close> keeps the memoized function when the items of
  \<open>deps\<close> are equal to the memoized ones, and takes this render's function otherwise.
  When the render is committed, the effect registered with \<open>[deps]\<close> is cleaned up if
  \<open>[deps]\<close> differs from the list of the previous render (its one item is the array itself),
  and then the effect without dependencies stores this render's options in \<open>optionsRef\<close>.
\<close>

definition rerender :: "'u env \<Rightarrow> props \<Rightarrow> 'u state \<Rightarrow> unit completion \<times> 'u state" where
  "rerender E p s =
     (case s of (h, w) \<Rightarrow>
        (let keep = depsEqual E (items (deps p)) (memoDeps h);
             (r, h1, w1) =
               (if depsEqual E [deps_value (deps p)] (effectDeps h) then (Normal (), h, w)
                else depsEffectCleanup E (h, w))
         in (r,
             h1\<lparr>optionsRef := resolve_options (options p),
                effectDeps := [deps_value (deps p)],
                memoCallback :=
                  (if keep then memoCallback h else \<lparr>ident = closures h, captured = callback p\<rparr>),
                memoDeps := (if keep then memoDeps h else items (deps p)),
                closures := Suc (closures h)\<rparr>,
             w1)))"

text \<open>Calling the function the hook returned last.\<close>

definition invoke :: "'u env \<Rightarrow> jsval list \<Rightarrow> 'u state \<Rightarrow> jsval completion \<times> 'u state" where
  "invoke E args s = outputCallback E (captured (memoCallback (fst s))) args s"

text \<open>
  Unmounting runs the cleanup of every effect, in the order of registration; an exception
  of one does not stop the next, and the first one is reported.
\<close>

definition unmount :: "'u env \<Rightarrow> 'u state \<Rightarrow> unit completion \<times> 'u state" where
  "unmount E s =
     (case depsEffectCleanup E s of
        (r1, s1) \<Rightarrow>
          (case unmountEffectCleanup E s1 of
             (r2, s2) \<Rightarrow> ((case r1 of Throw e \<Rightarrow> Throw e | Normal _ \<Rightarrow> r2), s2)))"

datatype action = Rerender props | Invoke "jsval list" | Unmount

fun step :: "'u env \<Rightarrow> action \<Rightarrow> 'u state \<Rightarrow> 'u state" where
  "step E (Rerender p) s = snd (rerender E p s)"
| "step E (Invoke args) s = snd (invoke E args s)"
| "step E Unmount s = snd (unmount E s)"

fun run :: "'u env \<Rightarrow> action list \<Rightarrow> 'u state \<Rightarrow> 'u state" where
  "run E [] s = s"
| "run E (a # as) s = run E as (step E a s)"


fun fired_cleanups :: "event list \<Rightarrow> nat list" where
  "fired_cleanups [] = []"
| "fired_cleanups (Called_cleanup a f # es) = f # fired_cleanups es"
| "fired_cleanups (Called_callback c args r # es) = fired_cleanups es"


fun returned :: "event list \<Rightarrow> jsval completion list" where
  "returned [] = []"
| "returned (Called_cleanup a f # es) = returned es"
| "returned (Called_callback c args r # es) = r # returned es"

text \<open>The cleanup function that a completion of the callback arms, if it arms one.\<close>

fun release_of :: "jsval completion \<Rightarrow> nat option" where
  "release_of (Normal (Function f)) = Some f"
| "release_of (Normal (Object r fs)) =
     (case get_property (Object r fs) ''cleanup'' of Function f \<Rightarrow> Some f | _ \<Rightarrow> None)"
| "release_of _ = None"

section \<open>Scenarios\<close>

text \<open>
  The callback of the repository's tests: function 100 counts its calls in the user's state
  and returns, on call number \<open>n\<close> (from 0), the fresh cleanup function \<open>n\<close>.
\<close>

definition fresh_release_env :: "nat env" where
  "fresh_release_env =
     \<lparr>body = (\<lambda>f args n. if f = 100 then (Normal (Function n), Suc n) else (Normal Undefined, n)),
      depsEqual = areHookInputsEqual\<rparr>"

text \<open>A callback that returns cleanup 0 on its first call and nothing afterwards.\<close>

definition release_then_empty_env :: "nat env" where
  "release_then_empty_env =
     \<lparr>body = (\<lambda>f args n.
         if f = 100 then ((if n = 0 then Normal (Function 0) else Normal Undefined), Suc n)
         else (Normal Undefined, n)),
      depsEqual = areHookInputsEqual\<rparr>"

text \<open>
  A callback that returns cleanup 0 on its first call and \<open>{ value: "foo" }\<close>, an object
  without a cleanup, afterwards.
\<close>

definition release_then_value_env :: "nat env" where
  "release_then_value_env =
     \<lparr>body = (\<lambda>f args n.
         if f = 100
         then ((if n = 0 then Normal (Function 0) else Normal (Object 7 [(''value'', Str ''foo'')])),
               Suc n)
         else (Normal Undefined, n)),
      depsEqual = areHookInputsEqual\<rparr>"

text \<open>A callback that returns cleanup 0 on its first call and throws afterwards.\<close>

definition release_then_throw_env :: "nat env" where
  "release_then_throw_env =
     \<lparr>body = (\<lambda>f args n.
         if f = 100 then ((if n = 0 then Normal (Function 0) else Throw (Str ''boom'')), Suc n)
         else (Normal Undefined, n)),
      depsEqual = areHookInputsEqual\<rparr>"

text \<open>A callback that returns \<open>{ value: "foo", cleanup: f0 }\<close> on every call.\<close>

definition object_env :: "unit env" where
  "object_env =
     \<lparr>body = (\<lambda>f args u.
         if f = 100
         then (Normal (Object 7 [(''value'', Str ''foo''), (''cleanup'', Function 0)]), u)
         else (Normal Undefined, u)),
      depsEqual = areHookInputsEqual\<rparr>"


definition default_props :: props where
  "default_props =
     \<lparr>callback = 100, deps = \<lparr>ref = 0, items = [Str ''some_dependency'']\<rparr>, options = no_options\<rparr>"



text \<open>\<open>{ cleanUpOnCall: false }\<close>\<close>

definition no_call_cleanup_props :: props where
  "no_call_cleanup_props =
     \<lparr>callback = 100, deps = \<lparr>ref = 0, items = []\<rparr>,
      options = no_options\<lparr>optCleanUpOnCall := Some False\<rparr>\<rparr>"

text \<open>
  \<open>{ cleanUpOnDepsChange: true }\<close>, then a re-render with a new array literal that holds
  the same dependency, and one with the very same array.
\<close>

definition deps_cleanup_props :: props where
  "deps_cleanup_props =
     \<lparr>callback = 100, deps = \<lparr>ref = 0, items = [Str ''dep0'']\<rparr>,
      options = no_options\<lparr>optCleanUpOnDepsChange := Some True\<rparr>\<rparr>"

definition equal_deps_props :: props where
  "equal_deps_props = deps_cleanup_props\<lparr>deps := \<lparr>ref = 1, items = [Str ''dep0'']\<rparr>\<rparr>"

text \<open>
  An environment that records in the user's state what the user's functions do, as the
  mock functions of the repository's tests do: the state is the number of calls of the
  callback and the list of the calls made. A function from 100 on is a callback: on call
  number \<open>n\<close> (from 0) it records the call and returns the fresh cleanup function \<open>n\<close>.
  Any other function is a cleanup: it records that it ran.
\<close>

datatype mark = Ran_callback nat | Ran_cleanup nat

definition recording_env :: "(nat \<times> mark list) env" where
  "recording_env =
     \<lparr>body = (\<lambda>f args u.
         if 100 \<le> f
         then (Normal (Function (fst u)), (Suc (fst u), snd u @ [Ran_callback (fst u)]))
         else (Normal Undefined, (fst u, snd u @ [Ran_cleanup f]))),
      depsEqual = areHookInputsEqual\<rparr>"

text \<open>
  \<open>{ cleanUpOnCall: false, cleanUpOnDepsChange: false, cleanUpOnUnmount: true }\<close>, and a
  re-render with the same options, another callback and a changed dependency.
\<close>

definition unmount_only_props :: props where
  "unmount_only_props =
     \<lparr>callback = 100, deps = \<lparr>ref = 0, items = [Str ''dep0'']\<rparr>,
      options = \<lparr>optCleanUpOnCall = Some False, optCleanUpOnDepsChange = Some False,
                 optCleanUpOnUnmount = Some True\<rparr>\<rparr>"

definition unmount_only_rekeyed_props :: props where
  "unmount_only_rekeyed_props =
     unmount_only_props\<lparr>callback := 101, deps := \<lparr>ref = 1, items = [Str ''dep1'']\<rparr>\<rparr>"

text \<open>The same two renders with \<open>cleanUpOnDepsChange: true\<close>.\<close>

definition deps_and_unmount_props :: props where
  "deps_and_unmount_props =
     unmount_only_props\<lparr>options := \<lparr>optCleanUpOnCall = Some False,
       optCleanUpOnDepsChange = Some True, optCleanUpOnUnmount = Some True\<rparr>\<rparr>"

definition deps_and_unmount_rekeyed_props :: props where
  "deps_and_unmount_rekeyed_props =
     deps_and_unmount_props\<lparr>callback := 101, deps := \<lparr>ref = 1, items = [Str ''dep1'']\<rparr>\<rparr>"

section \<open>Invariants\<close>



definition only_unmount :: options where
  "only_unmount = \<lparr>cleanUpOnCall = False, cleanUpOnDepsChange = False, cleanUpOnUnmount = True\<rparr>"

definition arming :: "'u env \<Rightarrow> nat \<Rightarrow> bool" where
  "arming E cb = (\<forall>args u. release_of (fst (body E cb args u)) \<noteq> None)"

text \<open>
  The user's state that the calls listed in a trace produce, one after the other, from a
  given state. The hook changes the user's state only by calling the user's functions, so
  the state of every run is the replay of its trace.
\<close>

fun replay :: "'u env \<Rightarrow> event list \<Rightarrow> 'u \<Rightarrow> 'u" where
  "replay E [] u = u"
| "replay E (Called_cleanup a f # es) u = replay E es (snd (body E f [] u))"
| "replay E (Called_callback c args r # es) u = replay E es (snd (body E c args u))"

definition traced :: "'u env \<Rightarrow> 'u \<Rightarrow> 'u state \<Rightarrow> bool" where
  "traced E u0 s = (user (snd s) = replay E (trace (snd s)) u0)"

text \<open>
  What may happen before the disposal when only \<open>cleanUpOnUnmount\<close> is set: an invocation,
  or a re-render (with the same or with changed dependencies) that gives the same three
  options and a callback that arms a cleanup on every call.
\<close>

fun quiet :: "'u env \<Rightarrow> action \<Rightarrow> bool" where
  "quiet E (Invoke args) = True"
| "quiet E (Rerender q) = (resolve_options (options q) = only_unmount \<and> arming E (callback q))"
| "quiet E Unmount = False"

fun invocations :: "action list \<Rightarrow> nat" where
  "invocations [] = 0"
| "invocations (Invoke args # as) = Suc (invocations as)"
| "invocations (a # as) = invocations as"

text \<open>
  With only \<open>cleanUpOnUnmount\<close> set: nothing has fired, and the slot holds, not yet called,
  the cleanup that the last call of the callback returned.
\<close>

definition pending_last :: "'u env \<Rightarrow> 'u state \<Rightarrow> bool" where
  "pending_last E s =
     (optionsRef (fst s) = only_unmount \<and> arming E (captured (memoCallback (fst s))) \<and>
      fired_cleanups (trace (snd s)) = [] \<and> \<not> isCalled (cleanupRef (fst s)) \<and>
      (if returned (trace (snd s)) = [] then cleanup (cleanupRef (fst s)) = Null
       else \<exists>f. release_of (last (returned (trace (snd s)))) = Some f \<and>
                cleanup (cleanupRef (fst s)) = Function f))"

section \<open>Unfolding the hook on concrete inputs\<close>

lemmas hook_defs =
  mount_def rerender_def invoke_def unmount_def outputCallback_def cleanUpPreviousCall_def
  callAndStore_def handleCleanupRef_def handleCleanupObj_def call_function_def
  set_cleanupRef_def depsEffectCleanup_def unmountEffectCleanup_def resolve_options_def
  no_options_def deps_value_def areHookInputsEqual_def TypeError_def

section \<open>Readings of a longer trace\<close>


lemma fired_cleanups_append: "fired_cleanups (xs @ ys) = fired_cleanups xs @ fired_cleanups ys"
  by (induction xs rule: fired_cleanups.induct) simp_all

lemma returned_append: "returned (xs @ ys) = returned xs @ returned ys"
  by (induction xs rule: returned.induct) simp_all

section \<open>Firing the slot\<close>



lemma handleCleanupRef_pending:
  assumes "cleanup (cleanupRef (fst s)) = Function f" and "\<not> isCalled (cleanupRef (fst s))"
  shows "trace (snd (snd (handleCleanupRef E s))) =
           trace (snd s) @ [Called_cleanup (addr (cleanupRef (fst s))) f]"
  using assms
  by (cases s)
     (simp add: handleCleanupRef_def handleCleanupObj_def Let_def
           split: prod.splits completion.splits)

lemma handleCleanupRef_nothing:
  assumes "isCalled (cleanupRef (fst s)) \<or> typeof (cleanup (cleanupRef (fst s))) \<noteq> T_function"
  shows "handleCleanupRef E s = (Normal (), s)"
  using assms by (cases s) (auto simp: handleCleanupRef_def handleCleanupObj_def)

lemma cleanUpPreviousCall_slot:
  "cleanupRef (fst (snd (cleanUpPreviousCall E s))) =
     (if cleanUpOnCall (optionsRef (fst s)) \<and> \<not> isCalled (cleanupRef (fst s)) \<and>
         typeof (cleanup (cleanupRef (fst s))) = T_function
      then (cleanupRef (fst s))\<lparr>isCalled := True\<rparr> else cleanupRef (fst s))"
  by (cases s)
     (simp add: cleanUpPreviousCall_def handleCleanupRef_def handleCleanupObj_def Let_def
           split: prod.splits completion.splits)

section \<open>Calling the callback and storing its result\<close>

lemma callAndStore_object:
  assumes "body E cb args (user (snd s)) = (Normal (Object r fs), u')"
  shows "callAndStore E cb args s =
     (Normal (get_property (Object r fs) ''value''),
      set_cleanupRef (get_property (Object r fs) ''cleanup'') (fst s),
      (snd s)\<lparr>trace := trace (snd s) @ [Called_callback cb args (Normal (Object r fs))],
              user := u'\<rparr>)"
  using assms by (cases s) (simp add: callAndStore_def call_function_def)

lemma callAndStore_function:
  assumes "body E cb args (user (snd s)) = (Normal (Function f), u')"
  shows "callAndStore E cb args s =
     (Normal (Function f), set_cleanupRef (Function f) (fst s),
      (snd s)\<lparr>trace := trace (snd s) @ [Called_callback cb args (Normal (Function f))],
              user := u'\<rparr>)"
  using assms by (cases s) (simp add: callAndStore_def call_function_def)

lemma callAndStore_throw:
  assumes "body E cb args (user (snd s)) = (Throw e, u')"
  shows "callAndStore E cb args s =
     (Throw e, fst s,
      (snd s)\<lparr>trace := trace (snd s) @ [Called_callback cb args (Throw e)], user := u'\<rparr>)"
  using assms by (cases s) (simp add: callAndStore_def call_function_def)

section \<open>At most one call per slot object\<close>















section \<open>The scenario of the default options\<close>

text \<open>
  C2. With no options given (so \<open>cleanUpOnCall = true\<close>, \<open>cleanUpOnDepsChange = false\<close>,
  \<open>cleanUpOnUnmount = true\<close>) and a callback that returns the fresh cleanup \<open>n\<close> on call
  \<open>n\<close>, where the callback and the cleanups record their own runs: after three invocations
  the user's functions have run in the order callback, cleanup 0, callback, cleanup 1,
  callback, and unmounting then runs cleanup 2. So each cleanup has run exactly once, in this
  order, and each before the next call of the callback. The trace of the hook says the same.
\<close>

theorem default_options_scenario:
  "resolve_options no_options =
     \<lparr>cleanUpOnCall = True, cleanUpOnDepsChange = False, cleanUpOnUnmount = True\<rparr> \<and>
   user (snd (run recording_env [Invoke []] (mount default_props (0, [])))) =
     (1, [Ran_callback 0]) \<and>
   user (snd (run recording_env [Invoke [], Invoke []] (mount default_props (0, [])))) =
     (2, [Ran_callback 0, Ran_cleanup 0, Ran_callback 1]) \<and>
   user (snd (run recording_env [Invoke [], Invoke [], Invoke []]
                (mount default_props (0, [])))) =
     (3, [Ran_callback 0, Ran_cleanup 0, Ran_callback 1, Ran_cleanup 1, Ran_callback 2]) \<and>
   user (snd (run recording_env [Invoke [], Invoke [], Invoke [], Unmount]
                (mount default_props (0, [])))) =
     (3, [Ran_callback 0, Ran_cleanup 0, Ran_callback 1, Ran_cleanup 1, Ran_callback 2,
          Ran_cleanup 2]) \<and>
   trace (snd (run recording_env [Invoke [], Invoke [], Invoke []]
                 (mount default_props (0, [])))) =
     [Called_callback 100 [] (Normal (Function 0)), Called_cleanup 1 0,
      Called_callback 100 [] (Normal (Function 1)), Called_cleanup 2 1,
      Called_callback 100 [] (Normal (Function 2))] \<and>
   trace (snd (run recording_env [Invoke [], Invoke [], Invoke [], Unmount]
                 (mount default_props (0, [])))) =
     [Called_callback 100 [] (Normal (Function 0)), Called_cleanup 1 0,
      Called_callback 100 [] (Normal (Function 1)), Called_cleanup 2 1,
      Called_callback 100 [] (Normal (Function 2)), Called_cleanup 3 2]"
  by (simp add: recording_env_def default_props_def hook_defs)

section \<open>The cleanup on a change of dependencies\<close>

text \<open>
  C3. The effect that cleans up on a change of dependencies is registered with \<open>[deps]\<close>,
  so the host compares the dependency arrays themselves, by identity. With
  \<open>cleanUpOnDepsChange: true\<close>, after one invocation that armed cleanup 0, a re-render that
  passes a new array holding the same dependency keeps the memoized callback (the key is
  equal) and yet calls cleanup 0; a re-render that passes the very same array calls nothing.
\<close>

theorem deps_cleanup_fires_on_equal_key:
  "areHookInputsEqual (items (deps equal_deps_props))
     (memoDeps (fst (run fresh_release_env [Invoke []] (mount deps_cleanup_props 0)))) \<and>
   memoCallback (fst (run fresh_release_env [Invoke [], Rerender equal_deps_props]
                        (mount deps_cleanup_props 0))) =
     memoCallback (fst (run fresh_release_env [Invoke []] (mount deps_cleanup_props 0))) \<and>
   trace (snd (run fresh_release_env [Invoke []] (mount deps_cleanup_props 0))) =
     [Called_callback 100 [] (Normal (Function 0))] \<and>
   trace (snd (run fresh_release_env [Invoke [], Rerender equal_deps_props]
                 (mount deps_cleanup_props 0))) =
     [Called_callback 100 [] (Normal (Function 0)), Called_cleanup 1 0] \<and>
   trace (snd (run fresh_release_env [Invoke [], Rerender deps_cleanup_props]
                 (mount deps_cleanup_props 0))) =
     [Called_callback 100 [] (Normal (Function 0))]"
  by (simp add: fresh_release_env_def deps_cleanup_props_def equal_deps_props_def hook_defs)

section \<open>A callback that returns nothing\<close>

text \<open>
  C4. A result that is neither an object nor a function is returned without writing the
  slot. With \<open>cleanUpOnCall: false\<close>, a first invocation arms cleanup 0, a second one returns
  \<open>undefined\<close>; the slot then still holds cleanup 0, not called, and unmounting calls it.
\<close>

theorem empty_result_keeps_pending_action:
  "returned (trace (snd (run release_then_empty_env [Invoke [], Invoke []]
                          (mount no_call_cleanup_props 0)))) =
     [Normal (Function 0), Normal Undefined] \<and>
   cleanupRef (fst (run release_then_empty_env [Invoke [], Invoke []]
                      (mount no_call_cleanup_props 0))) =
     \<lparr>cleanup = Function 0, isCalled = False, addr = 1\<rparr> \<and>
   trace (snd (run release_then_empty_env [Invoke [], Invoke [], Unmount]
                 (mount no_call_cleanup_props 0))) =
     [Called_callback 100 [] (Normal (Function 0)), Called_callback 100 [] (Normal Undefined),
      Called_cleanup 1 0]"
  by (simp add: release_then_empty_env_def no_call_cleanup_props_def hook_defs)

text \<open>
  The object branch on the same input: a second result \<open>{ value: "foo" }\<close> does write the
  slot, with an undefined cleanup, and unmounting then calls nothing.
\<close>

lemma object_without_cleanup_clears_slot:
  "cleanupRef (fst (run release_then_value_env [Invoke [], Invoke []]
                      (mount no_call_cleanup_props 0))) =
     \<lparr>cleanup = Undefined, isCalled = False, addr = 2\<rparr> \<and>
   fired_cleanups (trace (snd (run release_then_value_env [Invoke [], Invoke [], Unmount]
                                 (mount no_call_cleanup_props 0)))) = []"
  by (simp add: release_then_value_env_def no_call_cleanup_props_def hook_defs)

section \<open>The memoized callback\<close>
















section \<open>Cleaning up on unmount only\<close>

lemma release_of_cases:
  assumes "release_of r = Some f"
  shows "r = Normal (Function f) \<or>
         (\<exists>a fs. r = Normal (Object a fs) \<and> get_property (Object a fs) ''cleanup'' = Function f)"
  using assms by (cases r rule: release_of.cases) (auto split: jsval.splits)

lemma replay_append: "replay E (xs @ ys) u = replay E ys (replay E xs u)"
  by (induction E xs u rule: replay.induct) simp_all

lemma traced_mount: "traced E u (mount p u)"
  by (simp add: traced_def mount_def)

lemma traced_handleCleanupRef: "traced E u0 s \<Longrightarrow> traced E u0 (snd (handleCleanupRef E s))"
  by (cases s; cases "cleanup (cleanupRef (fst s))")
     (auto simp: traced_def handleCleanupRef_def handleCleanupObj_def call_function_def
           replay_append Let_def split: prod.splits completion.splits)

lemma traced_callAndStore: "traced E u0 s \<Longrightarrow> traced E u0 (snd (callAndStore E cb args s))"
  by (cases s)
     (auto simp: traced_def callAndStore_def call_function_def replay_append Let_def
           split: prod.splits completion.splits)

lemma traced_outputCallback: "traced E u0 s \<Longrightarrow> traced E u0 (snd (outputCallback E cb args s))"
proof -
  assume t: "traced E u0 s"
  have "traced E u0 (snd (handleCleanupRef E s))"
    using t by (rule traced_handleCleanupRef)
  then have "traced E u0 (snd (cleanUpPreviousCall E s))"
    using t by (simp add: cleanUpPreviousCall_def)
  then show ?thesis
    by (auto simp: outputCallback_def traced_callAndStore split: prod.splits completion.splits)
qed

lemma traced_rerender: "traced E u0 s \<Longrightarrow> traced E u0 (snd (rerender E p s))"
  using traced_handleCleanupRef [of E u0 s]
  by (cases s) (auto simp: rerender_def depsEffectCleanup_def Let_def traced_def split: prod.splits)

lemma traced_unmount:
  assumes "traced E u0 s"
  shows "traced E u0 (snd (unmount E s))"
proof -
  have d: "traced E u0 (snd (depsEffectCleanup E s))"
    using assms traced_handleCleanupRef [of E u0 s] by (simp add: depsEffectCleanup_def)
  have "traced E u0 (snd (unmountEffectCleanup E (snd (depsEffectCleanup E s))))"
    using d traced_handleCleanupRef [of E u0 "snd (depsEffectCleanup E s)"]
    by (simp add: unmountEffectCleanup_def)
  then show ?thesis
    by (simp add: unmount_def case_prod_unfold)
qed

lemma traced_step: "traced E u0 s \<Longrightarrow> traced E u0 (step E a s)"
  by (cases a) (simp_all add: traced_rerender traced_unmount invoke_def traced_outputCallback)

lemma traced_run: "traced E u0 s \<Longrightarrow> traced E u0 (run E as s)"
  by (induction as arbitrary: s) (simp_all add: traced_step)

lemma handleCleanupRef_fires:
  assumes "cleanup (cleanupRef (fst s)) = Function f" and "\<not> isCalled (cleanupRef (fst s))"
  shows "handleCleanupRef E s =
     ((case fst (body E f [] (user (snd s))) of Normal v \<Rightarrow> Normal () | Throw e \<Rightarrow> Throw e),
      (fst s)\<lparr>cleanupRef := (cleanupRef (fst s))\<lparr>isCalled := True\<rparr>\<rparr>,
      (snd s)\<lparr>trace := trace (snd s) @ [Called_cleanup (addr (cleanupRef (fst s))) f],
              user := snd (body E f [] (user (snd s)))\<rparr>)"
  using assms
  by (cases s)
     (simp add: handleCleanupRef_def handleCleanupObj_def call_function_def Let_def
           split: prod.splits completion.splits)

lemma pending_last_mount:
  "resolve_options (options p) = only_unmount \<Longrightarrow> arming E (callback p) \<Longrightarrow>
   pending_last E (mount p u)"
  by (simp add: pending_last_def mount_def)

lemma pending_last_invoke:
  assumes "pending_last E s"
  shows "pending_last E (snd (invoke E args s)) \<and>
         length (returned (trace (snd (snd (invoke E args s))))) =
           Suc (length (returned (trace (snd s))))"
proof -
  define cb where "cb = captured (memoCallback (fst s))"
  obtain r u' where b: "body E cb args (user (snd s)) = (r, u')"
    by (cases "body E cb args (user (snd s))") auto
  have "release_of (fst (body E cb args (user (snd s)))) \<noteq> None"
    using assms by (simp add: arming_def pending_last_def cb_def)
  with b obtain f where f: "release_of r = Some f"
    by auto
  have pre: "cleanUpPreviousCall E s = (Normal (), s)"
    using assms by (simp add: cleanUpPreviousCall_def pending_last_def only_unmount_def)
  from release_of_cases [OF f] show ?thesis
  proof
    assume "r = Normal (Function f)"
    then show ?thesis
      using assms b pre f
      by (cases s)
         (simp add: invoke_def outputCallback_def callAndStore_def call_function_def cb_def
            pending_last_def set_cleanupRef_def fired_cleanups_append returned_append)
  next
    assume "\<exists>a fs. r = Normal (Object a fs) \<and> get_property (Object a fs) ''cleanup'' = Function f"
    then obtain a fs where "r = Normal (Object a fs)"
      and "get_property (Object a fs) ''cleanup'' = Function f" by blast
    then show ?thesis
      using assms b pre f
      by (cases s)
         (simp add: invoke_def outputCallback_def callAndStore_def call_function_def cb_def
            pending_last_def set_cleanupRef_def fired_cleanups_append returned_append)
  qed
qed

lemma pending_last_rerender:
  assumes "pending_last E s" and "resolve_options (options q) = only_unmount"
    and "arming E (callback q)"
  shows "pending_last E (snd (rerender E q s)) \<and>
         trace (snd (snd (rerender E q s))) = trace (snd s)"
  using assms
  by (cases s)
     (auto simp: rerender_def depsEffectCleanup_def pending_last_def only_unmount_def Let_def)

lemma pending_last_step:
  assumes "pending_last E s" and "quiet E a"
  shows "pending_last E (step E a s) \<and>
         length (returned (trace (snd (step E a s)))) =
           length (returned (trace (snd s))) + invocations [a]"
proof (cases a)
  case (Rerender q)
  then show ?thesis
    using assms pending_last_rerender [of E s q] by simp
next
  case (Invoke args)
  then show ?thesis
    using assms(1) pending_last_invoke [of E s args] by simp
next
  case Unmount
  then show ?thesis using assms(2) by simp
qed

lemma invocations_Cons: "invocations (a # as) = invocations [a] + invocations as"
  by (cases a) simp_all

lemma pending_last_run:
  "pending_last E s \<Longrightarrow> list_all (quiet E) acts \<Longrightarrow>
   pending_last E (run E acts s) \<and>
   length (returned (trace (snd (run E acts s)))) =
     length (returned (trace (snd s))) + invocations acts"
proof (induction acts arbitrary: s)
  case Nil
  then show ?case by simp
next
  case (Cons a acts)
  from Cons.prems have q: "quiet E a" and qs: "list_all (quiet E) acts"
    by simp_all
  from pending_last_step [OF Cons.prems(1) q]
  have st: "pending_last E (step E a s)"
    and len: "length (returned (trace (snd (step E a s)))) =
              length (returned (trace (snd s))) + invocations [a]" by simp_all
  from Cons.IH [OF st qs] len invocations_Cons [of a acts] show ?case by simp
qed

lemma pending_last_unmount_empty:
  assumes "pending_last E s" and "returned (trace (snd s)) = []"
  shows "unmount E s = (Normal (), s)"
proof -
  from assms have "cleanup (cleanupRef (fst s)) = Null"
    by (simp add: pending_last_def)
  then have "handleCleanupRef E s = (Normal (), s)"
    by (simp add: handleCleanupRef_nothing)
  with assms(1) show ?thesis
    by (simp add: unmount_def depsEffectCleanup_def unmountEffectCleanup_def pending_last_def
          only_unmount_def)
qed

lemma pending_last_unmount_fires:
  assumes "pending_last E s" and "returned (trace (snd s)) \<noteq> []"
  shows "\<exists>f. release_of (last (returned (trace (snd s)))) = Some f \<and>
           unmount E s =
             ((case fst (body E f [] (user (snd s))) of
                 Normal v \<Rightarrow> Normal () | Throw e \<Rightarrow> Throw e),
              (fst s)\<lparr>cleanupRef := (cleanupRef (fst s))\<lparr>isCalled := True\<rparr>\<rparr>,
              (snd s)\<lparr>trace := trace (snd s) @ [Called_cleanup (addr (cleanupRef (fst s))) f],
                      user := snd (body E f [] (user (snd s)))\<rparr>)"
proof -
  from assms obtain f where f: "release_of (last (returned (trace (snd s)))) = Some f"
    and c: "cleanup (cleanupRef (fst s)) = Function f"
    by (auto simp: pending_last_def)
  from assms(1) have n: "\<not> isCalled (cleanupRef (fst s))"
    by (simp add: pending_last_def)
  have "unmount E s = handleCleanupRef E s"
    using assms(1)
    by (simp add: unmount_def depsEffectCleanup_def unmountEffectCleanup_def pending_last_def
          only_unmount_def split: prod.splits completion.splits)
  with handleCleanupRef_fires [OF c n, of E] f show ?thesis
    by simp
qed

text \<open>
  C6. The hook is mounted with \<open>cleanUpOnCall = false\<close>, \<open>cleanUpOnDepsChange = false\<close> and
  \<open>cleanUpOnUnmount = true\<close>; it is then invoked and re-rendered any number of times in any
  order, every re-render giving the same three options (its dependencies may be equal or
  changed, its callback the same or another); every call of a callback returns a cleanup (a
  function, or an object whose \<open>cleanup\<close> is a function). Then before the disposal no
  cleanup has been called: the trace holds no call of a cleanup, and the user's state is the
  one that the calls of the callbacks alone produce, one call per invocation. At the
  disposal exactly one cleanup is called, the one that the last call of a callback returned:
  the hook runs its body on the user's state and completes as that body does. When the
  function was never invoked, the disposal does nothing. The cleanups returned by the
  earlier calls are never called.
\<close>

theorem trigger_independence:
  assumes "resolve_options (options p) =
             \<lparr>cleanUpOnCall = False, cleanUpOnDepsChange = False, cleanUpOnUnmount = True\<rparr>"
    and "\<forall>args u. release_of (fst (body E (callback p) args u)) \<noteq> None"
    and "list_all (quiet E) acts"
  shows "(let S = run E acts (mount p u) in
            fired_cleanups (trace (snd S)) = [] \<and>
            user (snd S) = replay E (trace (snd S)) u \<and>
            length (returned (trace (snd S))) = invocations acts \<and>
            (invocations acts = 0 \<longrightarrow> unmount E S = (Normal (), S)) \<and>
            (0 < invocations acts \<longrightarrow>
               (case release_of (last (returned (trace (snd S)))) of
                  None \<Rightarrow> False
                | Some f \<Rightarrow>
                    trace (snd (snd (unmount E S))) =
                      trace (snd S) @ [Called_cleanup (addr (cleanupRef (fst S))) f] \<and>
                    user (snd (snd (unmount E S))) = snd (body E f [] (user (snd S))) \<and>
                    fst (unmount E S) =
                      (case fst (body E f [] (user (snd S))) of
                         Normal v \<Rightarrow> Normal () | Throw e \<Rightarrow> Throw e))))"
proof -
  define S where "S = run E acts (mount p u)"
  have a: "arming E (callback p)"
    using assms(2) by (simp add: arming_def)
  have m: "pending_last E (mount p u)"
    using assms(1) a by (simp add: pending_last_mount only_unmount_def)
  have r0: "returned (trace (snd (mount p u))) = []"
    by (simp add: mount_def)
  from pending_last_run [OF m assms(3)] r0
  have pl: "pending_last E S"
    and len: "length (returned (trace (snd S))) = invocations acts"
    by (simp_all add: S_def)
  have quiet_trace: "fired_cleanups (trace (snd S)) = []"
    using pl by (simp add: pending_last_def)
  have tr: "user (snd S) = replay E (trace (snd S)) u"
    using traced_run [OF traced_mount, of E u acts p] by (simp add: traced_def S_def)
  have none: "invocations acts = 0 \<longrightarrow> unmount E S = (Normal (), S)"
    using pending_last_unmount_empty [OF pl] len by (metis length_0_conv)
  have some: "0 < invocations acts \<longrightarrow>
     (case release_of (last (returned (trace (snd S)))) of
        None \<Rightarrow> False
      | Some f \<Rightarrow>
          trace (snd (snd (unmount E S))) =
            trace (snd S) @ [Called_cleanup (addr (cleanupRef (fst S))) f] \<and>
          user (snd (snd (unmount E S))) = snd (body E f [] (user (snd S))) \<and>
          fst (unmount E S) =
            (case fst (body E f [] (user (snd S))) of
               Normal v \<Rightarrow> Normal () | Throw e \<Rightarrow> Throw e))"
  proof
    assume "0 < invocations acts"
    with len have "returned (trace (snd S)) \<noteq> []" by auto
    from pending_last_unmount_fires [OF pl this] show
      "case release_of (last (returned (trace (snd S)))) of
        None \<Rightarrow> False
      | Some f \<Rightarrow>
          trace (snd (snd (unmount E S))) =
            trace (snd S) @ [Called_cleanup (addr (cleanupRef (fst S))) f] \<and>
          user (snd (snd (unmount E S))) = snd (body E f [] (user (snd S))) \<and>
          fst (unmount E S) =
            (case fst (body E f [] (user (snd S))) of
               Normal v \<Rightarrow> Normal () | Throw e \<Rightarrow> Throw e)"
      by auto
  qed
  from quiet_trace tr len none some show ?thesis
    unfolding Let_def S_def by blast
qed

theorem trigger_independence_witness:
  "resolve_options (options unmount_only_props) =
     \<lparr>cleanUpOnCall = False, cleanUpOnDepsChange = False, cleanUpOnUnmount = True\<rparr> \<and>
   (\<forall>args u. release_of (fst (body recording_env (callback unmount_only_props) args u))
      \<noteq> None) \<and>
   list_all (quiet recording_env)
     [Invoke [], Rerender unmount_only_rekeyed_props, Invoke [], Invoke []] \<and>
   user (snd (run recording_env
                [Invoke [], Rerender unmount_only_rekeyed_props, Invoke [], Invoke []]
                (mount unmount_only_props (0, [])))) =
     (3, [Ran_callback 0, Ran_callback 1, Ran_callback 2]) \<and>
   user (snd (snd (unmount recording_env
      (run recording_env [Invoke [], Rerender unmount_only_rekeyed_props, Invoke [], Invoke []]
         (mount unmount_only_props (0, [])))))) =
     (3, [Ran_callback 0, Ran_callback 1, Ran_callback 2, Ran_cleanup 2]) \<and>
   unmount recording_env (run recording_env [] (mount unmount_only_props (0, []))) =
     (Normal (), mount unmount_only_props (0, []))"
  using trigger_independence [of unmount_only_props recording_env
      "[Invoke [], Rerender unmount_only_rekeyed_props, Invoke [], Invoke []]" "(0, [])"]
    trigger_independence [of unmount_only_props recording_env "[]" "(0, [])"]
  by (simp add: recording_env_def unmount_only_props_def unmount_only_rekeyed_props_def
        only_unmount_def arming_def hook_defs)

text \<open>
  The same run with \<open>cleanUpOnDepsChange: true\<close>: the change of dependencies runs cleanup 0
  before the disposal.
\<close>

lemma deps_change_flag_fires_before_disposal:
  "user (snd (run recording_env
                [Invoke [], Rerender deps_and_unmount_rekeyed_props, Invoke [], Invoke []]
                (mount deps_and_unmount_props (0, [])))) =
     (3, [Ran_callback 0, Ran_cleanup 0, Ran_callback 1, Ran_callback 2])"
  by (simp add: recording_env_def deps_and_unmount_props_def deps_and_unmount_rekeyed_props_def
        unmount_only_props_def hook_defs)

section \<open>What an invocation returns and stores\<close>

text \<open>
  C7. When the callback returns an object, the invocation returns the object's \<open>value\<close>
  and stores the object's \<open>cleanup\<close>, in whatever state the slot was before (armed, called
  or empty): for the result \<open>{ value: v, cleanup: a }\<close> it returns \<open>v\<close>.
\<close>

theorem value_pass_through:
  assumes "cleanUpPreviousCall E s = (Normal (), s1)"
    and "body E cb args (user (snd s1)) = (Normal (Object r fs), u')"
  shows "fst (outputCallback E cb args s) = Normal (get_property (Object r fs) ''value'') \<and>
         cleanup (cleanupRef (fst (snd (outputCallback E cb args s)))) =
           get_property (Object r fs) ''cleanup'' \<and>
         get_property (Object r [(''value'', v), (''cleanup'', a)]) ''value'' = v"
  using assms by (simp add: outputCallback_def callAndStore_object set_cleanupRef_def)

theorem value_pass_through_witness:
  "fst (outputCallback object_env 100 [] (mount default_props ())) = Normal (Str ''foo'') \<and>
   fired_cleanups (trace (snd (snd (outputCallback object_env 100 []
       (mount default_props ()))))) = [] \<and>
   fst (outputCallback object_env 100 []
          (snd (outputCallback object_env 100 [] (mount default_props ())))) =
     Normal (Str ''foo'') \<and>
   fired_cleanups (trace (snd (snd (outputCallback object_env 100 []
       (snd (outputCallback object_env 100 [] (mount default_props ()))))))) = [0]"
  using value_pass_through [of object_env "mount default_props ()" "mount default_props ()"
      100 "[]" 7 "[(''value'', Str ''foo''), (''cleanup'', Function 0)]" "()"]
    value_pass_through [of object_env
      "snd (outputCallback object_env 100 [] (mount default_props ()))"
      "snd (cleanUpPreviousCall object_env
             (snd (outputCallback object_env 100 [] (mount default_props ()))))"
      100 "[]" 7 "[(''value'', Str ''foo''), (''cleanup'', Function 0)]" "()"]
  by (simp add: object_env_def default_props_def hook_defs)

text \<open>
  C8. When the cleanup of the previous call has been handled without an exception and the
  callback then throws, the invocation throws the same exception and leaves the hook's
  state as the first statement left it: the previous slot object, marked as called if
  \<open>cleanUpOnCall\<close> is set and it held a function not yet called, unchanged otherwise.
\<close>

theorem operation_failure:
  assumes "cleanUpPreviousCall E s = (Normal (), s1)"
    and "body E cb args (user (snd s1)) = (Throw e, u')"
  shows "fst (outputCallback E cb args s) = Throw e \<and>
         fst (snd (outputCallback E cb args s)) = fst s1 \<and>
         cleanupRef (fst s1) =
           (if cleanUpOnCall (optionsRef (fst s)) \<and> \<not> isCalled (cleanupRef (fst s)) \<and>
               typeof (cleanup (cleanupRef (fst s))) = T_function
            then (cleanupRef (fst s))\<lparr>isCalled := True\<rparr> else cleanupRef (fst s))"
  using assms cleanUpPreviousCall_slot [of E s]
  by (simp add: outputCallback_def callAndStore_throw)

theorem operation_failure_witness:
  "fst (outputCallback release_then_throw_env 100 []
          (run release_then_throw_env [Invoke []] (mount default_props 0))) =
     Throw (Str ''boom'') \<and>
   cleanupRef (fst (snd (outputCallback release_then_throw_env 100 []
          (run release_then_throw_env [Invoke []] (mount default_props 0))))) =
     \<lparr>cleanup = Function 0, isCalled = True, addr = 1\<rparr>"
  using operation_failure [of release_then_throw_env
      "run release_then_throw_env [Invoke []] (mount default_props 0)"
      "snd (cleanUpPreviousCall release_then_throw_env
             (run release_then_throw_env [Invoke []] (mount default_props 0)))"
      100 "[]" "Str ''boom''" 2]
  by (simp add: release_then_throw_env_def default_props_def hook_defs)

text \<open>
  C9. When the callback returns a function, the invocation stores that function in a fresh
  slot object, not called, and returns the function itself: the caller receives no value
  other than the cleanup.
\<close>

theorem bare_release:
  assumes "cleanUpPreviousCall E s = (Normal (), s1)"
    and "body E cb args (user (snd s1)) = (Normal (Function f), u')"
  shows "fst (outputCallback E cb args s) = Normal (Function f) \<and>
         cleanupRef (fst (snd (outputCallback E cb args s))) =
           \<lparr>cleanup = Function f, isCalled = False, addr = allocated (fst s1)\<rparr>"
  using assms by (simp add: outputCallback_def callAndStore_function set_cleanupRef_def)

theorem bare_release_witness:
  "fst (outputCallback fresh_release_env 100 [] (mount default_props 0)) = Normal (Function 0) \<and>
   cleanupRef (fst (snd (outputCallback fresh_release_env 100 [] (mount default_props 0)))) =
     \<lparr>cleanup = Function 0, isCalled = False, addr = 1\<rparr>"
  using bare_release [of fresh_release_env "mount default_props 0" "mount default_props 0"
      100 "[]" 0 1]
  by (simp add: fresh_release_env_def default_props_def hook_defs)

end
